theory Spec2Isabelle
  imports Complex_Main
begin

section \<open>Data model (models.py)\<close>

text \<open>
  The pydantic models of \<^verbatim>\<open>models.py\<close>. Inheritance between the item classes is
  record extension. The field \<^verbatim>\<open>id\<close> is called \<open>item_id\<close> (\<open>id\<close> is the identity
  function of HOL); the fields of \<^verbatim>\<open>SummarizedCluster\<close> carry the prefix \<open>sc_\<close>
  because they repeat names of the item classes. An \<^verbatim>\<open>HttpUrl\<close> and a \<^verbatim>\<open>datetime\<close>
  are held in their text form.

  A \<^verbatim>\<open>float\<close> is a finite value, an infinity or NaN. The finite values are real
  numbers: the rounding of a double is not modelled, its range is (see \<open>py_float\<close>).
  \<open>float_eq\<close> is \<^verbatim>\<open>==\<close> on two floats: NaN equals nothing, not even NaN.
\<close>

datatype pyfloat = Finite real | PosInf | NegInf | NaN

definition float_eq :: "pyfloat \<Rightarrow> pyfloat \<Rightarrow> bool" where
  "float_eq x y = (x \<noteq> NaN \<and> x = y)"

record RawNewsItem =
  item_id :: string
  title :: string
  url :: "string option"
  source :: string
  published_at :: "string option"
  content :: string

record ClassifiedNewsItem = RawNewsItem +
  category :: string
  classification_confidence :: pyfloat
  classification_method :: string

record ScoredNewsItem = ClassifiedNewsItem +
  impact_score :: int
  impact_reason :: string
  impact_dimensions :: "string list"

record ClusteredItem =
  cluster_id :: string
  representative :: ScoredNewsItem
  members :: "ScoredNewsItem list"


text \<open>
  \<^verbatim>\<open>==\<close> on two entities of one class (pydantic's \<^verbatim>\<open>BaseModel.__eq__\<close>): the fields
  are compared one by one with \<^verbatim>\<open>==\<close>.
\<close>

definition ClassifiedNewsItem_eq ::
  "'a ClassifiedNewsItem_scheme \<Rightarrow> 'a ClassifiedNewsItem_scheme \<Rightarrow> bool" where
  "ClassifiedNewsItem_eq a b =
     (item_id a = item_id b \<and> title a = title b \<and> url a = url b \<and> source a = source b \<and>
      published_at a = published_at b \<and> content a = content b \<and> category a = category b \<and>
      float_eq (classification_confidence a) (classification_confidence b) \<and>
      classification_method a = classification_method b)"

definition ScoredNewsItem_eq :: "ScoredNewsItem \<Rightarrow> ScoredNewsItem \<Rightarrow> bool" where
  "ScoredNewsItem_eq a b =
     (ClassifiedNewsItem_eq a b \<and> impact_score a = impact_score b \<and>
      impact_reason a = impact_reason b \<and> impact_dimensions a = impact_dimensions b)"

subsection \<open>Exceptions\<close>

text \<open>
  A raised exception is a value: its class and its message (\<^verbatim>\<open>str(e)\<close>). The
  messages of exceptions raised by library code are placeholders.
\<close>

datatype exn_kind =
  IndexError | ValueError | TypeError | AttributeError | ValidationError
  | OSError | PermissionError | JSONDecodeError | UnicodeEncodeError | OverflowError
  | APIError

datatype error = Raised exn_kind string


section \<open>Online clusterer (pipeline/deduplicate.py)\<close>

text \<open>
  The three lists that \<^verbatim>\<open>cluster_items\<close> maintains while it walks the items.
\<close>

record 'e cluster_state =
  clusters :: "ClusteredItem list"
  cluster_representatives :: "ScoredNewsItem list"
  cluster_embeddings :: "'e list"

definition init_state :: "'e cluster_state" where
  "init_state = \<lparr>clusters = [], cluster_representatives = [], cluster_embeddings = []\<rparr>"

text \<open>
  \<^verbatim>\<open>np.argmax\<close>: one scan from the left that replaces the running best only by a
  strictly greater value; it raises \<^verbatim>\<open>ValueError\<close> on an empty array.
\<close>

fun argmax_scan :: "real list \<Rightarrow> nat \<Rightarrow> nat \<Rightarrow> real \<Rightarrow> nat" where
  "argmax_scan [] i best mx = best"
| "argmax_scan (x # xs) i best mx =
     (if mx < x then argmax_scan xs (Suc i) i x else argmax_scan xs (Suc i) best mx)"

definition argmax :: "real list \<Rightarrow> error + nat" where
  "argmax xs =
     (case xs of
        [] \<Rightarrow> Inl (Raised ValueError ''attempt to get argmax of an empty sequence'')
      | x # rest \<Rightarrow> Inr (argmax_scan rest 1 0 x))"

text \<open>
  Opening a cluster (lines 64-73 and 95-104). \<^verbatim>\<open>uuid.uuid4()\<close> is a supply of
  identifiers: \<open>uuid4 n\<close> is the value of the call made when \<open>n\<close> clusters exist.
\<close>

definition new_cluster ::
  "(nat \<Rightarrow> string) \<Rightarrow> 'e cluster_state \<Rightarrow> ScoredNewsItem \<Rightarrow> 'e \<Rightarrow> 'e cluster_state" where
  "new_cluster uuid4 st item embedding =
     \<lparr>clusters = clusters st @
        [\<lparr>cluster_id = uuid4 (length (clusters st)), representative = item, members = [item]\<rparr>],
      cluster_representatives = cluster_representatives st @ [item],
      cluster_embeddings = cluster_embeddings st @ [embedding]\<rparr>"

text \<open>
  One iteration of the loop of lines 59-104. \<open>cosine_similarity\<close> is the similarity of
  the item's embedding to one centroid, as scikit-learn computes it for each row.
\<close>

definition cluster_step ::
  "('e \<Rightarrow> 'e \<Rightarrow> real) \<Rightarrow> real \<Rightarrow> (nat \<Rightarrow> string) \<Rightarrow> 'e cluster_state \<Rightarrow>
     ScoredNewsItem \<Rightarrow> 'e \<Rightarrow> error + 'e cluster_state" where
  "cluster_step cosine_similarity similarity_threshold uuid4 st item embedding =
     (if clusters st = [] then Inr (new_cluster uuid4 st item embedding)
      else
        let similarities = map (cosine_similarity embedding) (cluster_embeddings st) in
        case argmax similarities of
          Inl e \<Rightarrow> Inl e
        | Inr max_similarity_idx \<Rightarrow>
            let max_similarity = similarities ! max_similarity_idx in
            if similarity_threshold \<le> max_similarity then
              (if max_similarity_idx < length (clusters st) then
                 let cluster = clusters st ! max_similarity_idx;
                     cluster1 = cluster\<lparr>members := members cluster @ [item]\<rparr>
                 in
                   if impact_score (representative cluster1) < impact_score item then
                     Inr (st\<lparr>clusters :=
                               (clusters st)[max_similarity_idx := cluster1\<lparr>representative := item\<rparr>],
                             cluster_embeddings :=
                               (cluster_embeddings st)[max_similarity_idx := embedding]\<rparr>)
                   else
                     Inr (st\<lparr>clusters := (clusters st)[max_similarity_idx := cluster1]\<rparr>)
               else Inl (Raised IndexError ''list index out of range''))
            else Inr (new_cluster uuid4 st item embedding))"

text \<open>
  The loop \<^verbatim>\<open>for idx, item in enumerate(items)\<close>; \<^verbatim>\<open>embeddings[idx]\<close> raises when the
  embedding calls returned fewer vectors than there are items.
\<close>

fun cluster_loop ::
  "('e \<Rightarrow> 'e \<Rightarrow> real) \<Rightarrow> real \<Rightarrow> (nat \<Rightarrow> string) \<Rightarrow> 'e list \<Rightarrow> nat \<Rightarrow>
     ScoredNewsItem list \<Rightarrow> 'e cluster_state \<Rightarrow> error + 'e cluster_state" where
  "cluster_loop cs thr uuid4 embeddings idx [] st = Inr st"
| "cluster_loop cs thr uuid4 embeddings idx (item # items) st =
     (if idx < length embeddings then
        (case cluster_step cs thr uuid4 st item (embeddings ! idx) of
           Inl e \<Rightarrow> Inl e
         | Inr st' \<Rightarrow> cluster_loop cs thr uuid4 embeddings (Suc idx) items st')
      else Inl (Raised IndexError ''index out of bounds''))"

text \<open>
  The batches \<^verbatim>\<open>texts[i : i + batch_size]\<close> for \<^verbatim>\<open>i in range(0, len(texts), batch_size)\<close>.
\<close>

function batches :: "nat \<Rightarrow> 'a list \<Rightarrow> 'a list list" where
  "batches n xs = (if n = 0 \<or> xs = [] then [] else take n xs # batches n (drop n xs))"
  by pat_completeness auto
termination
  by (relation "measure (\<lambda>(n, xs). length xs)") auto

declare batches.simps [simp del]

text \<open>
  The embedding loop of lines 47-50: one call of \<^verbatim>\<open>embed_texts\<close> per batch, the
  results concatenated; an exception of a call leaves \<^verbatim>\<open>cluster_items\<close>.
\<close>

fun embed_batches ::
  "(string list \<Rightarrow> error + 'e list) \<Rightarrow> string list list \<Rightarrow> error + 'e list" where
  "embed_batches embed_texts [] = Inr []"
| "embed_batches embed_texts (batch # rest) =
     (case embed_texts batch of
        Inl e \<Rightarrow> Inl e
      | Inr batch_embeddings \<Rightarrow>
          (case embed_batches embed_texts rest of
             Inl e \<Rightarrow> Inl e
           | Inr others \<Rightarrow> Inr (batch_embeddings @ others)))"

definition embedding_text :: "ScoredNewsItem \<Rightarrow> string" where
  "embedding_text item = title item @ [CHR 0x0A] @ take 1000 (content item)"

text \<open>
  \<^verbatim>\<open>cluster_items\<close>. \<open>default_threshold\<close> is \<^verbatim>\<open>settings.similarity_threshold\<close>.
\<close>

definition cluster_items ::
  "('e \<Rightarrow> 'e \<Rightarrow> real) \<Rightarrow> (string list \<Rightarrow> error + 'e list) \<Rightarrow> (nat \<Rightarrow> string) \<Rightarrow> real \<Rightarrow>
     ScoredNewsItem list \<Rightarrow> real option \<Rightarrow> error + ClusteredItem list" where
  "cluster_items cosine_similarity embed_texts uuid4 default_threshold items similarity_threshold =
     (let thr = (case similarity_threshold of None \<Rightarrow> default_threshold | Some t \<Rightarrow> t) in
      if items = [] then Inr []
      else
        (case embed_batches embed_texts (batches 100 (map embedding_text items)) of
           Inl e \<Rightarrow> Inl e
         | Inr embeddings \<Rightarrow>
             (case cluster_loop cosine_similarity thr uuid4 embeddings 0 items init_state of
                Inl e \<Rightarrow> Inl e
              | Inr st \<Rightarrow> Inr (clusters st))))"

text \<open>The invariant of a cluster: the representative is a member (so there is one).\<close>

definition cluster_inv :: "ClusteredItem \<Rightarrow> bool" where
  "cluster_inv c = (representative c \<in> set (members c) \<and> 1 \<le> length (members c))"

text \<open>
  What holds of the three lists between iterations: one centroid per cluster, and every
  cluster satisfies the invariant.
\<close>

definition state_ok :: "'e cluster_state \<Rightarrow> bool" where
  "state_ok st =
     (length (cluster_embeddings st) = length (clusters st) \<and>
      list_all cluster_inv (clusters st))"

section \<open>JSON values and the Python conversions applied to them\<close>

text \<open>
  What \<^verbatim>\<open>json.loads\<close> returns. An object is the list of its bindings; the value of a
  key is its first binding (\<open>map_of\<close>).
\<close>

datatype json =
  JNull | JBool bool | JInt int | JFloat pyfloat | JStr string
  | JArr "json list" | JObj "(string \<times> json) list"

text \<open>Statements in sequence: the first exception ends the sequence.\<close>

definition try_bind :: "error + 'a \<Rightarrow> ('a \<Rightarrow> error + 'b) \<Rightarrow> error + 'b" where
  "try_bind r f = (case r of Inl e \<Rightarrow> Inl e | Inr v \<Rightarrow> f v)"

text \<open>
  Library functions whose text is not part of the repository are parameters: the MD5
  digest of \<^verbatim>\<open>hashlib\<close>, the parsers behind \<^verbatim>\<open>float(s)\<close> and \<^verbatim>\<open>int(s)\<close> on a string
  (\<open>None\<close> when they raise \<^verbatim>\<open>ValueError\<close>), \<^verbatim>\<open>str\<close> on a value that is not a string,
  and pydantic's validators of the \<^verbatim>\<open>HttpUrl\<close> and \<^verbatim>\<open>datetime\<close> fields (\<open>None\<close> when
  they reject the value; otherwise the text form of what they accept).
\<close>

record platform =
  md5_hexdigest :: "string \<Rightarrow> string"
  float_of_str :: "string \<Rightarrow> pyfloat option"
  int_of_str :: "string \<Rightarrow> int option"
  str_of_json :: "json \<Rightarrow> string"
  validate_http_url :: "json \<Rightarrow> string option"
  validate_datetime :: "json \<Rightarrow> string option"


text \<open>
  The integers that convert to a double: those that round to less than \<open>2 ^ 1024\<close>. The
  largest double is \<open>2 ^ 1024 - 2 ^ 971\<close>, and an integer half way from there to
  \<open>2 ^ 1024\<close> rounds up.
\<close>

definition fits_double :: "int \<Rightarrow> bool" where
  "fits_double n = (\<bar>n\<bar> < 2 ^ 1024 - 2 ^ 970)"





subsection \<open>Validation of fields by pydantic\<close>

text \<open>
  A \<^verbatim>\<open>str\<close> field accepts a string only. A \<^verbatim>\<open>float\<close> field accepts a float (NaN
  and the infinities too), an integer within the range of a double, a boolean or numeric
  text; an \<^verbatim>\<open>int\<close> field accepts an integer, a finite float without fractional part, a
  boolean or numeric text. A \<^verbatim>\<open>List[str]\<close> field accepts a list of strings. A missing
  required field and a rejected value raise \<^verbatim>\<open>ValidationError\<close>.
\<close>

definition required :: "(string \<times> json) list \<Rightarrow> string \<Rightarrow> error + json" where
  "required kvs key =
     (case map_of kvs key of
        None \<Rightarrow> Inl (Raised ValidationError ''Field required'')
      | Some v \<Rightarrow> Inr v)"

fun validate_str :: "json \<Rightarrow> error + string" where
  "validate_str (JStr s) = Inr s"
| "validate_str v = Inl (Raised ValidationError ''Input should be a valid string'')"

fun validate_float :: "platform \<Rightarrow> json \<Rightarrow> error + pyfloat" where
  "validate_float P (JFloat r) = Inr r"
| "validate_float P (JInt n) =
     (if fits_double n then Inr (Finite (of_int n))
      else Inl (Raised ValidationError ''Input should be a valid number''))"
| "validate_float P (JBool b) = Inr (Finite (if b then 1 else 0))"
| "validate_float P (JStr s) =
     (case float_of_str P s of
        None \<Rightarrow> Inl (Raised ValidationError ''Input should be a valid number'')
      | Some r \<Rightarrow> Inr r)"
| "validate_float P v = Inl (Raised ValidationError ''Input should be a valid number'')"

fun validate_int :: "platform \<Rightarrow> json \<Rightarrow> error + int" where
  "validate_int P (JInt n) = Inr n"
| "validate_int P (JFloat x) =
     (case x of
        Finite r \<Rightarrow>
          if of_int \<lfloor>r\<rfloor> = r then Inr \<lfloor>r\<rfloor>
          else Inl (Raised ValidationError ''Input should be a valid integer'')
      | _ \<Rightarrow> Inl (Raised ValidationError ''Input should be a finite number''))"
| "validate_int P (JBool b) = Inr (if b then 1 else 0)"
| "validate_int P (JStr s) =
     (case int_of_str P s of
        None \<Rightarrow> Inl (Raised ValidationError ''Input should be a valid integer'')
      | Some n \<Rightarrow> Inr n)"
| "validate_int P v = Inl (Raised ValidationError ''Input should be a valid integer'')"

fun validate_strs :: "json list \<Rightarrow> error + string list" where
  "validate_strs [] = Inr []"
| "validate_strs (v # vs) =
     (case validate_str v of
        Inl e \<Rightarrow> Inl e
      | Inr s \<Rightarrow> (case validate_strs vs of Inl e \<Rightarrow> Inl e | Inr ss \<Rightarrow> Inr (s # ss)))"

fun validate_str_list :: "json \<Rightarrow> error + string list" where
  "validate_str_list (JArr vs) = validate_strs vs"
| "validate_str_list v = Inl (Raised ValidationError ''Input should be a valid list'')"

definition validate_optional ::
  "(json \<Rightarrow> string option) \<Rightarrow> (string \<times> json) list \<Rightarrow> string \<Rightarrow> error + string option" where
  "validate_optional validator kvs key =
     (case map_of kvs key of
        None \<Rightarrow> Inr None
      | Some JNull \<Rightarrow> Inr None
      | Some v \<Rightarrow>
          (case validator v of
             None \<Rightarrow> Inl (Raised ValidationError ''Input is not valid'')
           | Some u \<Rightarrow> Inr (Some u)))"

text \<open>
  The constructors called with keyword arguments taken from a JSON object
  (\<^verbatim>\<open>ClassifiedNewsItem(**data)\<close>, \<^verbatim>\<open>ScoredNewsItem(**data)\<close>). Keys that name no field
  are ignored.
\<close>

definition RawNewsItem_validate :: "platform \<Rightarrow> (string \<times> json) list \<Rightarrow> error + RawNewsItem" where
  "RawNewsItem_validate P kvs =
     try_bind (try_bind (required kvs ''id'') validate_str) (\<lambda>i.
     try_bind (try_bind (required kvs ''title'') validate_str) (\<lambda>t.
     try_bind (validate_optional (validate_http_url P) kvs ''url'') (\<lambda>u.
     try_bind (try_bind (required kvs ''source'') validate_str) (\<lambda>s.
     try_bind (validate_optional (validate_datetime P) kvs ''published_at'') (\<lambda>p.
     try_bind (try_bind (required kvs ''content'') validate_str) (\<lambda>c.
       Inr \<lparr>item_id = i, title = t, url = u, source = s, published_at = p, content = c\<rparr>))))))"

definition ClassifiedNewsItem_validate :: "platform \<Rightarrow> json \<Rightarrow> error + ClassifiedNewsItem" where
  "ClassifiedNewsItem_validate P data =
     (case data of
        JObj kvs \<Rightarrow>
          try_bind (RawNewsItem_validate P kvs) (\<lambda>raw.
          try_bind (try_bind (required kvs ''category'') validate_str) (\<lambda>cat.
          try_bind (try_bind (required kvs ''classification_confidence'') (validate_float P)) (\<lambda>conf.
          try_bind (try_bind (required kvs ''classification_method'') validate_str) (\<lambda>meth.
            Inr (RawNewsItem.extend raw (ClassifiedNewsItem.fields cat conf meth))))))
      | _ \<Rightarrow> Inl (Raised TypeError ''argument after ** must be a mapping''))"

definition ScoredNewsItem_validate :: "platform \<Rightarrow> json \<Rightarrow> error + ScoredNewsItem" where
  "ScoredNewsItem_validate P data =
     (case data of
        JObj kvs \<Rightarrow>
          try_bind (ClassifiedNewsItem_validate P data) (\<lambda>item.
          try_bind (try_bind (required kvs ''impact_score'') (validate_int P)) (\<lambda>score.
          try_bind (try_bind (required kvs ''impact_reason'') validate_str) (\<lambda>reason.
          try_bind (try_bind (required kvs ''impact_dimensions'') validate_str_list) (\<lambda>dims.
            Inr (ClassifiedNewsItem.extend item (ScoredNewsItem.fields score reason dims))))))
      | _ \<Rightarrow> Inl (Raised TypeError ''argument after ** must be a mapping''))"



text \<open>
  \<^verbatim>\<open>item.model_dump(mode="json")\<close>: the fields in the order of their declaration, a
  float as it is.
\<close>

definition optional_json :: "string option \<Rightarrow> json" where
  "optional_json v = (case v of None \<Rightarrow> JNull | Some s \<Rightarrow> JStr s)"

definition RawNewsItem_dump :: "'a RawNewsItem_scheme \<Rightarrow> (string \<times> json) list" where
  "RawNewsItem_dump item =
     [(''id'', JStr (item_id item)), (''title'', JStr (title item)),
      (''url'', optional_json (url item)), (''source'', JStr (source item)),
      (''published_at'', optional_json (published_at item)), (''content'', JStr (content item))]"

definition ClassifiedNewsItem_dump :: "'a ClassifiedNewsItem_scheme \<Rightarrow> (string \<times> json) list" where
  "ClassifiedNewsItem_dump item =
     RawNewsItem_dump item @
     [(''category'', JStr (category item)),
      (''classification_confidence'', JFloat (classification_confidence item)),
      (''classification_method'', JStr (classification_method item))]"

definition ScoredNewsItem_dump :: "ScoredNewsItem \<Rightarrow> (string \<times> json) list" where
  "ScoredNewsItem_dump item =
     ClassifiedNewsItem_dump item @
     [(''impact_score'', JInt (impact_score item)),
      (''impact_reason'', JStr (impact_reason item)),
      (''impact_dimensions'', JArr (map JStr (impact_dimensions item)))]"

section \<open>Result cache (cache.py)\<close>

text \<open>
  The cache directory as the code sees it: the files by path, whether the directories
  on the way to a path may be searched (so that the path can be looked up at all), and
  whether the file at a path can be opened for reading and for writing. The
  serialisation of \<^verbatim>\<open>json.dump\<close> and \<^verbatim>\<open>json.load\<close> is not modelled: a file holds
  either a JSON document, which \<^verbatim>\<open>json.load\<close> returns as \<^verbatim>\<open>json.dump\<close> wrote it (NaN
  and the infinities included, which both accept), or text that \<^verbatim>\<open>json.load\<close> rejects.
\<close>

datatype file_content = Garbage string | Document json

record filesystem =
  files :: "string \<Rightarrow> file_content option"
  searchable :: "string \<Rightarrow> bool"
  readable :: "string \<Rightarrow> bool"
  writable :: "string \<Rightarrow> bool"

record NewsCache =
  cache_dir :: string

text \<open>\<^verbatim>\<open>datetime.date\<close> (years 1 to 9999) and \<^verbatim>\<open>date.isoformat()\<close>.\<close>

record date =
  year :: nat
  month :: nat
  day :: nat

definition digit :: "nat \<Rightarrow> char" where
  "digit n = ''0123456789'' ! (n mod 10)"

definition isoformat :: "date \<Rightarrow> string" where
  "isoformat d =
     [digit (year d div 1000), digit (year d div 100), digit (year d div 10), digit (year d)]
     @ ''-'' @ [digit (month d div 10), digit (month d)]
     @ ''-'' @ [digit (day d div 10), digit (day d)]"

text \<open>
  A \<^verbatim>\<open>str\<close> is held as the bytes of its UTF-8 form, a lone surrogate as the three
  bytes \<open>ED\<close>, \<open>A0\<close> to \<open>BF\<close>, \<open>80\<close> to \<open>BF\<close> that no character has in UTF-8.
  \<^verbatim>\<open>content.encode()\<close> returns the bytes and raises \<^verbatim>\<open>UnicodeEncodeError\<close> on a
  lone surrogate.
\<close>

fun has_surrogate :: "string \<Rightarrow> bool" where
  "has_surrogate (a # b # s) =
     ((of_char a = (237 :: nat) \<and> (160 :: nat) \<le> of_char b \<and> of_char b \<le> (191 :: nat))
      \<or> has_surrogate (b # s))"
| "has_surrogate s = False"

definition str_encode :: "string \<Rightarrow> error + string" where
  "str_encode s =
     (if has_surrogate s then Inl (Raised UnicodeEncodeError ''surrogates not allowed'')
      else Inr s)"

text \<open>
  \<^verbatim>\<open>_get_cache_key\<close> (lines 27-30; \<open>key_text\<close> is the f-string of line 29) and
  \<^verbatim>\<open>_get_cache_file\<close>.
\<close>

definition key_text :: "string \<Rightarrow> string \<Rightarrow> string \<Rightarrow> string" where
  "key_text iid operation date_str = iid @ '':'' @ operation @ '':'' @ date_str"

definition get_cache_key :: "platform \<Rightarrow> string \<Rightarrow> string \<Rightarrow> string \<Rightarrow> error + string" where
  "get_cache_key P iid operation date_str =
     try_bind (str_encode (key_text iid operation date_str)) (\<lambda>bytes.
       Inr (md5_hexdigest P bytes))"

definition get_cache_file :: "NewsCache \<Rightarrow> string \<Rightarrow> string" where
  "get_cache_file self cache_key = cache_dir self @ ''/'' @ cache_key @ ''.json''"

text \<open>
  \<^verbatim>\<open>cache_file.exists()\<close>: \<^verbatim>\<open>Path.exists\<close> answers \<^verbatim>\<open>False\<close> for a path that is not
  there and lets the \<^verbatim>\<open>PermissionError\<close> of a directory that may not be searched
  through.
\<close>

definition path_exists :: "filesystem \<Rightarrow> string \<Rightarrow> error + bool" where
  "path_exists fs path =
     (if searchable fs path then Inr (files fs path \<noteq> None)
      else Inl (Raised PermissionError ''Permission denied''))"

text \<open>\<^verbatim>\<open>open(cache_file, "r")\<close> followed by \<^verbatim>\<open>json.load\<close>.\<close>

definition read_json :: "filesystem \<Rightarrow> string \<Rightarrow> error + json" where
  "read_json fs path =
     (if searchable fs path then
        (case files fs path of
           None \<Rightarrow> Inl (Raised OSError ''No such file or directory'')
         | Some c \<Rightarrow>
             if readable fs path then
               (case c of
                  Garbage s \<Rightarrow> Inl (Raised JSONDecodeError ''Expecting value'')
                | Document j \<Rightarrow> Inr j)
             else Inl (Raised PermissionError ''Permission denied''))
      else Inl (Raised PermissionError ''Permission denied''))"

text \<open>
  \<^verbatim>\<open>open(cache_file, "w")\<close> followed by \<^verbatim>\<open>json.dump\<close>. A write succeeds as a whole
  or leaves the directory as it was.
\<close>

definition write_json :: "filesystem \<Rightarrow> string \<Rightarrow> json \<Rightarrow> error + filesystem" where
  "write_json fs path j =
     (if searchable fs path \<and> writable fs path
      then Inr (fs\<lparr>files := (files fs)(path \<mapsto> Document j)\<rparr>)
      else Inl (Raised PermissionError ''Permission denied''))"

text \<open>
  \<^verbatim>\<open>get_classified\<close> (lines 47-57) and \<^verbatim>\<open>get_scored\<close> (lines 87-97). The key and
  \<^verbatim>\<open>cache_file.exists()\<close> are computed before the \<^verbatim>\<open>try\<close>: their exceptions leave
  the method. Inside the \<^verbatim>\<open>try\<close>, any exception of the read or of the constructor
  gives \<^verbatim>\<open>None\<close>.
\<close>

definition get_classified ::
  "platform \<Rightarrow> NewsCache \<Rightarrow> filesystem \<Rightarrow> string \<Rightarrow> date \<Rightarrow>
     error + ClassifiedNewsItem option" where
  "get_classified P self fs iid target_date =
     try_bind (get_cache_key P iid ''classify'' (isoformat target_date)) (\<lambda>cache_key.
       let cache_file = get_cache_file self cache_key in
       try_bind (path_exists fs cache_file) (\<lambda>found.
         if found then
           (case try_bind (read_json fs cache_file) (ClassifiedNewsItem_validate P) of
              Inr item \<Rightarrow> Inr (Some item)
            | Inl e \<Rightarrow> Inr None)
         else Inr None))"

definition get_scored ::
  "platform \<Rightarrow> NewsCache \<Rightarrow> filesystem \<Rightarrow> string \<Rightarrow> date \<Rightarrow>
     error + ScoredNewsItem option" where
  "get_scored P self fs iid target_date =
     try_bind (get_cache_key P iid ''score'' (isoformat target_date)) (\<lambda>cache_key.
       let cache_file = get_cache_file self cache_key in
       try_bind (path_exists fs cache_file) (\<lambda>found.
         if found then
           (case try_bind (read_json fs cache_file) (ScoredNewsItem_validate P) of
              Inr item \<Rightarrow> Inr (Some item)
            | Inl e \<Rightarrow> Inr None)
         else Inr None))"

text \<open>
  \<^verbatim>\<open>save_classified\<close> (lines 67-74) and \<^verbatim>\<open>save_scored\<close> (lines 107-114). The key
  is computed before the \<^verbatim>\<open>try\<close>. An exception of the write is printed as a warning
  and the cache stays as it was.
\<close>

definition save_classified ::
  "platform \<Rightarrow> NewsCache \<Rightarrow> filesystem \<Rightarrow> ClassifiedNewsItem \<Rightarrow> date \<Rightarrow>
     error + filesystem" where
  "save_classified P self fs item target_date =
     try_bind (get_cache_key P (item_id item) ''classify'' (isoformat target_date)) (\<lambda>cache_key.
       let cache_file = get_cache_file self cache_key in
       (case write_json fs cache_file (JObj (ClassifiedNewsItem_dump item)) of
          Inr fs' \<Rightarrow> Inr fs'
        | Inl e \<Rightarrow> Inr fs))"

definition save_scored ::
  "platform \<Rightarrow> NewsCache \<Rightarrow> filesystem \<Rightarrow> ScoredNewsItem \<Rightarrow> date \<Rightarrow>
     error + filesystem" where
  "save_scored P self fs item target_date =
     try_bind (get_cache_key P (item_id item) ''score'' (isoformat target_date)) (\<lambda>cache_key.
       let cache_file = get_cache_file self cache_key in
       (case write_json fs cache_file (JObj (ScoredNewsItem_dump item)) of
          Inr fs' \<Rightarrow> Inr fs'
        | Inl e \<Rightarrow> Inr fs))"

text \<open>
  The record types are wider than the pydantic classes: a \<open>url\<close> is any text here and
  an \<^verbatim>\<open>HttpUrl\<close> there, a \<open>published_at\<close> any text here and a \<^verbatim>\<open>datetime\<close> there. A
  record is an entity of the class when its URL and its time stamp are text forms of
  such values: the validators return them for their own text.
\<close>

definition canonical :: "platform \<Rightarrow> 'a RawNewsItem_scheme \<Rightarrow> bool" where
  "canonical P item =
     ((case url item of None \<Rightarrow> True | Some u \<Rightarrow> validate_http_url P (JStr u) = Some u) \<and>
      (case published_at item of None \<Rightarrow> True | Some t \<Rightarrow> validate_datetime P (JStr t) = Some t))"

section \<open>Classifier (pipeline/classify.py)\<close>







section \<open>Impact scorer (pipeline/impact.py)\<close>





section \<open>Cluster summarizer (pipeline/summarize.py)\<close>







section \<open>Bounded concurrent stages\<close>

text \<open>
  Each stage (\<^verbatim>\<open>classify_zero_shot_async\<close>, \<^verbatim>\<open>classify_few_shot_async\<close>,
  \<^verbatim>\<open>score_impact_async\<close>, \<^verbatim>\<open>summarize_clusters_async\<close>) loads its prompt template,
  counts the cache hits for a message (the two cached stages), creates
  \<^verbatim>\<open>asyncio.Semaphore(max_concurrent)\<close> and one coroutine per item, and awaits
  \<^verbatim>\<open>async_tqdm.gather(*tasks)\<close>. On the one thread of the event loop a coroutine runs
  without interruption from its start, where it enters the semaphore and looks in the
  cache, to the await of the call; and again from the arrival of the reply to its end,
  where it builds the result, saves it and leaves the semaphore. A task is these two
  pieces: \<open>before_call\<close> returns the cached result if there is one (the coroutine ends
  there) or the exception of the lookup, \<open>after_call\<close> returns the result and the cache
  directory after the save, or the exception that leaves the coroutine. The messages
  that the stages print are left out.
\<close>

record 'r task =
  before_call :: "filesystem \<Rightarrow> error + 'r option"
  after_call :: "filesystem \<Rightarrow> error + 'r \<times> filesystem"

text \<open>
  What the event loop does next: it starts a coroutine, or it resumes one whose call
  has returned. A schedule is the list of these events in the order of a run.
\<close>

datatype event = Start nat | Finish nat

text \<open>
  The state of a run: the coroutines started, those inside the semaphore that wait for
  their call, the pairs \<open>(index, result)\<close> in the order of completion (the list \<^verbatim>\<open>res\<close>
  of \<^verbatim>\<open>tqdm.asyncio.gather\<close>), and the cache directory.
\<close>

record 'r loop_state =
  started :: "nat list"
  in_flight :: "nat list"
  res :: "(nat \<times> 'r) list"
  store :: filesystem

definition initial :: "filesystem \<Rightarrow> 'r loop_state" where
  "initial fs = \<lparr>started = [], in_flight = [], res = [], store = fs\<rparr>"

text \<open>
  One event. A coroutine starts once, and only while fewer than \<open>max_concurrent\<close>
  coroutines are inside the semaphore; a coroutine is resumed only while it waits for
  its call. \<open>None\<close>: the event cannot happen in this state. \<open>Some (Inl e)\<close>: the
  coroutine raises \<open>e\<close>, which \<^verbatim>\<open>gather\<close> passes on.
\<close>

definition step ::
  "int \<Rightarrow> 'r task list \<Rightarrow> event \<Rightarrow> 'r loop_state \<Rightarrow> (error + 'r loop_state) option" where
  "step max_concurrent tasks ev st =
     (case ev of
        Start i \<Rightarrow>
          if i < length tasks \<and> i \<notin> set (started st) \<and>
             int (length (in_flight st)) < max_concurrent
          then
            (case before_call (tasks ! i) (store st) of
               Inl e \<Rightarrow> Some (Inl e)
             | Inr (Some r) \<Rightarrow>
                 Some (Inr (st\<lparr>started := started st @ [i], res := res st @ [(i, r)]\<rparr>))
             | Inr None \<Rightarrow>
                 Some (Inr (st\<lparr>started := started st @ [i], in_flight := in_flight st @ [i]\<rparr>)))
          else None
      | Finish i \<Rightarrow>
          if i \<in> set (in_flight st) then
            (case after_call (tasks ! i) (store st) of
               Inl e \<Rightarrow> Some (Inl e)
             | Inr (r, fs') \<Rightarrow>
                 Some (Inr (st\<lparr>in_flight := removeAll i (in_flight st),
                               res := res st @ [(i, r)], store := fs'\<rparr>)))
          else None)"

fun run ::
  "int \<Rightarrow> 'r task list \<Rightarrow> event list \<Rightarrow> 'r loop_state \<Rightarrow> (error + 'r loop_state) option" where
  "run max_concurrent tasks [] st = Some (Inr st)"
| "run max_concurrent tasks (ev # evs) st =
     (case step max_concurrent tasks ev st of
        None \<Rightarrow> None
      | Some (Inl e) \<Rightarrow> Some (Inl e)
      | Some (Inr st') \<Rightarrow> run max_concurrent tasks evs st')"

text \<open>
  \<^verbatim>\<open>tqdm.asyncio.gather\<close> returns \<^verbatim>\<open>[r for _, r in sorted(res)]\<close>; the indices differ
  from each other, so the order is that of the indices.
\<close>

definition gather_result :: "(nat \<times> 'r) list \<Rightarrow> 'r list" where
  "gather_result pairs = map snd (sort_key fst pairs)"

text \<open>
  A stage from the creation of the semaphore on, under a schedule.
  \<^verbatim>\<open>asyncio.Semaphore\<close> raises \<^verbatim>\<open>ValueError\<close> for a negative value. The stage returns
  when every coroutine has delivered its result. \<open>None\<close>: the schedule is no run of
  the stage, or the stage has not returned at its end.
\<close>

definition stage ::
  "int \<Rightarrow> 'r task list \<Rightarrow> filesystem \<Rightarrow> event list \<Rightarrow> (error + 'r list \<times> filesystem) option" where
  "stage max_concurrent tasks fs schedule =
     (if max_concurrent < 0
      then Some (Inl (Raised ValueError ''Semaphore initial value must be >= 0''))
      else
        (case run max_concurrent tasks schedule (initial fs) of
           None \<Rightarrow> None
         | Some (Inl e) \<Rightarrow> Some (Inl e)
         | Some (Inr st) \<Rightarrow>
             if length (res st) = length tasks
             then Some (Inr (gather_result (res st), store st))
             else None))"










section \<open>Notions used in the statements\<close>





text \<open>
  The file in which the cache keeps the record of an item, an operation and a date, and
  whether the text of its key has an encoding (no lone surrogate).
\<close>

definition cache_path :: "platform \<Rightarrow> NewsCache \<Rightarrow> string \<Rightarrow> string \<Rightarrow> date \<Rightarrow> string" where
  "cache_path P self iid operation target_date =
     get_cache_file self (md5_hexdigest P (key_text iid operation (isoformat target_date)))"

definition encodable :: "string \<Rightarrow> string \<Rightarrow> date \<Rightarrow> bool" where
  "encodable iid operation target_date =
     (\<not> has_surrogate (key_text iid operation (isoformat target_date)))"

text \<open>
  A stored record that a get cannot use: the file cannot be opened for reading, it holds
  no JSON, or it holds JSON that the constructor of the model rejects.
\<close>

definition unusable :: "(json \<Rightarrow> error + 'a) \<Rightarrow> filesystem \<Rightarrow> string \<Rightarrow> bool" where
  "unusable validate fs path =
     (case files fs path of
        None \<Rightarrow> False
      | Some c \<Rightarrow>
          \<not> readable fs path \<or>
          (case c of
             Garbage s \<Rightarrow> True
           | Document j \<Rightarrow> (case validate j of Inl e \<Rightarrow> True | Inr v \<Rightarrow> False)))"


section \<open>Notions used in the statements and proofs about the stages\<close>















section \<open>Sample data\<close>

text \<open>Concrete items, a similarity and an embedding call on which the results are run.\<close>


definition demo_item :: "string \<Rightarrow> int \<Rightarrow> ScoredNewsItem" where
  "demo_item name score =
     \<lparr>item_id = name, title = name, url = None, source = ''feed'', published_at = None,
      content = ''text'', category = ''Other'', classification_confidence = Finite (1 / 2),
      classification_method = ''zero-shot'', impact_score = score,
      impact_reason = ''reason'', impact_dimensions = []\<rparr>"

definition demo_similarity :: "nat \<Rightarrow> nat \<Rightarrow> real" where
  "demo_similarity e c = (if e = c then 1 else if e = 2 then 9 / 10 else 0)"

definition demo_uuid4 :: "nat \<Rightarrow> string" where
  "demo_uuid4 n = replicate (Suc n) CHR ''u''"

definition demo_state :: "nat cluster_state" where
  "demo_state =
     \<lparr>clusters =
        [\<lparr>cluster_id = ''u'', representative = demo_item ''a'' 2, members = [demo_item ''a'' 2]\<rparr>,
         \<lparr>cluster_id = ''uu'', representative = demo_item ''b'' 5, members = [demo_item ''b'' 5]\<rparr>],
      cluster_representatives = [demo_item ''a'' 2, demo_item ''b'' 5],
      cluster_embeddings = [0, 1]\<rparr>"


definition demo_embed_texts :: "string list \<Rightarrow> error + nat list" where
  "demo_embed_texts texts =
     Inr (map (\<lambda>t. if take 1 t = ''a'' then 0 else if take 1 t = ''b'' then 1 else 2) texts)"

definition demo_platform :: platform where
  "demo_platform =
     \<lparr>md5_hexdigest = (\<lambda>s. s), float_of_str = (\<lambda>s. None), int_of_str = (\<lambda>s. None),
      str_of_json = (\<lambda>v. ''?''),
      validate_http_url =
        (\<lambda>v. case v of JStr s \<Rightarrow> if take 4 s = ''http'' then Some s else None | _ \<Rightarrow> None),
      validate_datetime = (\<lambda>v. case v of JStr s \<Rightarrow> Some s | _ \<Rightarrow> None)\<rparr>"

definition demo_raw :: RawNewsItem where
  "demo_raw =
     \<lparr>item_id = ''n1'', title = ''A new model'', url = Some ''https://example.com/a'',
      source = ''feed'', published_at = None, content = ''text''\<rparr>"

definition demo_classified :: ClassifiedNewsItem where
  "demo_classified =
     RawNewsItem.extend demo_raw (ClassifiedNewsItem.fields ''AI Models'' (Finite (9 / 10)) ''zero-shot'')"

definition demo_date :: date where
  "demo_date = \<lparr>year = 2024, month = 5, day = 17\<rparr>"

definition demo_cache :: NewsCache where
  "demo_cache = \<lparr>cache_dir = ''data/cache''\<rparr>"

definition empty_fs :: filesystem where
  "empty_fs =
     \<lparr>files = (\<lambda>p. None), searchable = (\<lambda>p. True), readable = (\<lambda>p. True),
      writable = (\<lambda>p. True)\<rparr>"



definition garbage_fs :: filesystem where
  "garbage_fs =
     \<lparr>files = (\<lambda>p. Some (Garbage ''not json'')), searchable = (\<lambda>p. True),
      readable = (\<lambda>p. True), writable = (\<lambda>p. True)\<rparr>"





text \<open>
  A cache directory that the process may not search, an id with the lone surrogate
  \<^verbatim>\<open>U+D800\<close>, and a classified item whose confidence is NaN (the reply \<^verbatim>\<open>"nan"\<close> gives
  it).
\<close>

definition locked_fs :: filesystem where
  "locked_fs =
     \<lparr>files = (\<lambda>p. Some (Document JNull)), searchable = (\<lambda>p. False),
      readable = (\<lambda>p. True), writable = (\<lambda>p. True)\<rparr>"

definition surrogate_id :: string where
  "surrogate_id = [CHR 0xED, CHR 0xA0, CHR 0x80]"

definition demo_nan :: ClassifiedNewsItem where
  "demo_nan = RawNewsItem.extend demo_raw (ClassifiedNewsItem.fields ''Other'' NaN ''zero-shot'')"

text \<open>
  A classified item whose \<open>url\<close> was assigned text that is no URL (pydantic does not
  validate an assignment).
\<close>

definition demo_bad_url :: ClassifiedNewsItem where
  "demo_bad_url = demo_classified\<lparr>url := Some ''not a url''\<rparr>"


section \<open>Verification\<close>

subsection \<open>Online clusterer\<close>

lemma argmax_scan_spec:
  assumes "length pre = i" "best < i" "pre ! best = mx"
    "\<forall>j<i. pre ! j \<le> mx" "\<forall>j<best. pre ! j < mx"
  shows "argmax_scan xs i best mx < length (pre @ xs) \<and>
         (\<forall>j<length (pre @ xs). (pre @ xs) ! j \<le> (pre @ xs) ! argmax_scan xs i best mx) \<and>
         (\<forall>j<argmax_scan xs i best mx. (pre @ xs) ! j < (pre @ xs) ! argmax_scan xs i best mx)"
  using assms
proof (induction xs arbitrary: pre i best mx)
  case Nil
  then show ?case by simp
next
  case (Cons x xs)
  show ?case
  proof (cases "mx < x")
    case True
    have a: "length (pre @ [x]) = Suc i" using Cons.prems by simp
    have b: "i < Suc i" by simp
    have c: "(pre @ [x]) ! i = x" using Cons.prems by (simp add: nth_append)
    have d: "\<forall>j<Suc i. (pre @ [x]) ! j \<le> x"
      using Cons.prems True by (auto simp: nth_append less_Suc_eq)
    have e: "\<forall>j<i. (pre @ [x]) ! j < x"
      using Cons.prems True by (auto simp: nth_append)
    from Cons.IH[OF a b c d e] True show ?thesis by simp
  next
    case False
    have a: "length (pre @ [x]) = Suc i" using Cons.prems by simp
    have b: "best < Suc i" using Cons.prems by simp
    have c: "(pre @ [x]) ! best = mx" using Cons.prems by (simp add: nth_append)
    have d: "\<forall>j<Suc i. (pre @ [x]) ! j \<le> mx"
      using Cons.prems False by (auto simp: nth_append less_Suc_eq)
    have e: "\<forall>j<best. (pre @ [x]) ! j < mx"
      using Cons.prems False by (auto simp: nth_append)
    from Cons.IH[OF a b c d e] False show ?thesis by simp
  qed
qed

lemma argmax_spec:
  assumes "argmax xs = Inr r"
  shows "r < length xs \<and> (\<forall>j<length xs. xs ! j \<le> xs ! r) \<and> (\<forall>j<r. xs ! j < xs ! r)"
proof (cases xs)
  case Nil
  with assms show ?thesis by (simp add: argmax_def)
next
  case (Cons x rest)
  have r: "r = argmax_scan rest 1 0 x" using assms Cons by (simp add: argmax_def)
  have "argmax_scan rest 1 0 x < length ([x] @ rest) \<and>
         (\<forall>j<length ([x] @ rest). ([x] @ rest) ! j \<le> ([x] @ rest) ! argmax_scan rest 1 0 x) \<and>
         (\<forall>j<argmax_scan rest 1 0 x. ([x] @ rest) ! j < ([x] @ rest) ! argmax_scan rest 1 0 x)"
    by (rule argmax_scan_spec) simp_all
  with r Cons show ?thesis by simp
qed

lemma argmax_nonempty: "xs \<noteq> [] \<Longrightarrow> \<exists>r. argmax xs = Inr r"
  by (cases xs) (simp_all add: argmax_def)

lemma argmax_earliest:
  assumes "k < length xs" "\<forall>j<length xs. xs ! j \<le> xs ! k" "\<forall>j<k. xs ! j \<noteq> xs ! k"
  shows "argmax xs = Inr k"
proof -
  from assms(1) have "xs \<noteq> []" by auto
  then obtain r where r: "argmax xs = Inr r" using argmax_nonempty by blast
  note s = argmax_spec[OF r]
  have "xs ! r = xs ! k" using s assms by (meson order_antisym)
  have "\<not> r < k" using assms(3) \<open>xs ! r = xs ! k\<close> by auto
  moreover have "\<not> k < r" using s \<open>xs ! r = xs ! k\<close> by auto
  ultimately show ?thesis using r by simp
qed

lemma state_ok_init: "state_ok init_state"
  by (simp add: state_ok_def init_state_def)

lemma state_ok_new_cluster: "state_ok st \<Longrightarrow> state_ok (new_cluster uuid st item e)"
  by (simp add: state_ok_def new_cluster_def cluster_inv_def)

lemma list_all_update:
  "list_all P xs \<Longrightarrow> P y \<Longrightarrow> list_all P (xs[i := y])"
  by (induction xs arbitrary: i) (auto split: nat.splits)

lemma cluster_inv_join:
  "cluster_inv c \<Longrightarrow> cluster_inv (c\<lparr>members := members c @ [item]\<rparr>)"
  by (simp add: cluster_inv_def)

lemma cluster_inv_promote:
  "cluster_inv (c\<lparr>members := members c @ [item], representative := item\<rparr>)"
  by (simp add: cluster_inv_def)

lemma cluster_step_ok:
  assumes "state_ok st" "cluster_step cs thr uuid st item e = Inr st'"
  shows "state_ok st'"
proof (cases "clusters st = []")
  case True
  with assms show ?thesis by (auto simp: cluster_step_def state_ok_new_cluster)
next
  case False
  from assms(1) have len: "length (cluster_embeddings st) = length (clusters st)"
    and inv: "list_all cluster_inv (clusters st)" by (simp_all add: state_ok_def)
  from assms(2) False obtain k where k: "argmax (map (cs e) (cluster_embeddings st)) = Inr k"
    by (auto simp: cluster_step_def Let_def split: sum.splits)
  show ?thesis
  proof (cases "thr \<le> map (cs e) (cluster_embeddings st) ! k")
    case below: False
    with assms False k show ?thesis
      by (auto simp: cluster_step_def Let_def state_ok_new_cluster)
  next
    case True
    from argmax_spec[OF k] len have kl: "k < length (clusters st)" by simp
    then have ck: "cluster_inv (clusters st ! k)" using inv by (simp add: list_all_length)
    show ?thesis
    proof (cases "impact_score (representative (clusters st ! k)) < impact_score item")
      case promote: True
      with assms(2) False k True kl
      have "st' = st\<lparr>clusters := (clusters st)[k := (clusters st ! k)\<lparr>members := members (clusters st ! k) @ [item], representative := item\<rparr>],
                       cluster_embeddings := (cluster_embeddings st)[k := e]\<rparr>"
        by (simp add: cluster_step_def Let_def)
      then show ?thesis using len inv
        by (simp add: state_ok_def list_all_update cluster_inv_promote)
    next
      case keep: False
      with assms(2) False k True kl
      have "st' = st\<lparr>clusters := (clusters st)[k := (clusters st ! k)\<lparr>members := members (clusters st ! k) @ [item]\<rparr>]\<rparr>"
        by (simp add: cluster_step_def Let_def)
      then show ?thesis using len inv ck
        by (simp add: state_ok_def list_all_update cluster_inv_join)
    qed
  qed
qed

lemma cluster_loop_ok:
  "state_ok st \<Longrightarrow> cluster_loop cs thr uuid embs idx items st = Inr st' \<Longrightarrow> state_ok st'"
proof (induction items arbitrary: idx st)
  case Nil
  then show ?case by simp
next
  case (Cons item items)
  from Cons.prems(2) obtain st1 where
    s: "cluster_step cs thr uuid st item (embs ! idx) = Inr st1"
    and l: "cluster_loop cs thr uuid embs (Suc idx) items st1 = Inr st'"
    by (auto split: if_splits sum.splits)
  from cluster_step_ok[OF Cons.prems(1) s] have "state_ok st1" .
  from Cons.IH[OF this l] show ?case .
qed

lemma cluster_loop_append:
  "cluster_loop cs thr uuid embs idx (xs @ ys) st =
     (case cluster_loop cs thr uuid embs idx xs st of
        Inl e \<Rightarrow> Inl e
      | Inr st' \<Rightarrow> cluster_loop cs thr uuid embs (idx + length xs) ys st')"
  by (induction xs arbitrary: idx st) (auto split: sum.splits)

lemma cluster_loop_split:
  "cluster_loop cs thr uuid embs 0 items st =
     (case cluster_loop cs thr uuid embs 0 (take k items) st of
        Inl e \<Rightarrow> Inl e
      | Inr st' \<Rightarrow> cluster_loop cs thr uuid embs (length (take k items)) (drop k items) st')"
  using cluster_loop_append[of cs thr uuid embs 0 "take k items" "drop k items" st]
  by (simp only: append_take_drop_id add_0)

lemma cluster_loop_snoc:
  assumes "cluster_loop cs thr uuid embs 0 pre init_state = Inr st"
    and "length pre < length embs"
  shows "cluster_loop cs thr uuid embs 0 (pre @ [item]) init_state =
           cluster_step cs thr uuid st item (embs ! length pre)"
  using assms by (simp add: cluster_loop_append split: sum.splits)

lemma cluster_step_join:
  assumes ok: "state_ok st"
    and k: "argmax (map (cs e) (cluster_embeddings st)) = Inr k"
    and thr: "thr \<le> cs e (cluster_embeddings st ! k)"
  shows "cluster_step cs thr uuid st item e =
           Inr (if impact_score (representative (clusters st ! k)) < impact_score item
                then st\<lparr>clusters := (clusters st)[k := (clusters st ! k)\<lparr>members := members (clusters st ! k) @ [item], representative := item\<rparr>],
                       cluster_embeddings := (cluster_embeddings st)[k := e]\<rparr>
                else st\<lparr>clusters := (clusters st)[k := (clusters st ! k)\<lparr>members := members (clusters st ! k) @ [item]\<rparr>]\<rparr>)"
proof -
  from ok have len: "length (cluster_embeddings st) = length (clusters st)"
    by (simp add: state_ok_def)
  from argmax_spec[OF k] have kl: "k < length (cluster_embeddings st)" by simp
  with len have ne: "clusters st \<noteq> []" by auto
  from kl have "map (cs e) (cluster_embeddings st) ! k = cs e (cluster_embeddings st ! k)" by simp
  with ne k thr kl len show ?thesis
    by (simp add: cluster_step_def Let_def)
qed

lemma demo_run:
  "cluster_loop demo_similarity (4 / 5) demo_uuid4 [0, 1, 2] 0
     [demo_item ''a'' 2, demo_item ''b'' 5] init_state = Inr demo_state"
  by (simp add: cluster_step_def new_cluster_def init_state_def argmax_def demo_state_def
      demo_similarity_def demo_uuid4_def Let_def)

text \<open>
  Claim C1. Let the pass over any items \<open>pre\<close> have reached the state \<open>st\<close>, and let
  the next item's similarity to centroid \<open>k\<close> be the maximum over all centroids, be at
  least the threshold, and be reached by no centroid of a lower index (so \<open>k\<close> is the
  earliest-created cluster among those that tie for the maximum). Then the pass over
  \<open>pre @ [item]\<close> appends the item to the members of cluster \<open>k\<close>, opens no cluster and
  leaves every other cluster as it was.
\<close>

theorem cluster_items_tie_break:
  assumes reach: "cluster_loop cs thr uuid embs 0 pre init_state = Inr st"
    and idx: "length pre < length embs"
    and k: "k < length (cluster_embeddings st)"
    and mx: "\<forall>j<length (cluster_embeddings st).
               cs (embs ! length pre) (cluster_embeddings st ! j)
                 \<le> cs (embs ! length pre) (cluster_embeddings st ! k)"
    and first: "\<forall>j<k. cs (embs ! length pre) (cluster_embeddings st ! j)
                 \<noteq> cs (embs ! length pre) (cluster_embeddings st ! k)"
    and thr: "thr \<le> cs (embs ! length pre) (cluster_embeddings st ! k)"
  shows "\<exists>st'. cluster_loop cs thr uuid embs 0 (pre @ [item]) init_state = Inr st' \<and>
           length (clusters st') = length (clusters st) \<and>
           members (clusters st' ! k) = members (clusters st ! k) @ [item] \<and>
           (\<forall>j<length (clusters st). j \<noteq> k \<longrightarrow> clusters st' ! j = clusters st ! j)"
proof -
  let ?e = "embs ! length pre"
  let ?sims = "map (cs ?e) (cluster_embeddings st)"
  have ok: "state_ok st" using cluster_loop_ok[OF state_ok_init reach] .
  then have len: "length (cluster_embeddings st) = length (clusters st)"
    by (simp add: state_ok_def)
  have "argmax ?sims = Inr k"
  proof (rule argmax_earliest)
    show "k < length ?sims" using k by simp
    show "\<forall>j<length ?sims. ?sims ! j \<le> ?sims ! k" using mx k by simp
    show "\<forall>j<k. ?sims ! j \<noteq> ?sims ! k" using first k by simp
  qed
  note step = cluster_step_join[where cs=cs and e="embs ! length pre" and uuid=uuid and item=item, OF ok this thr]
  note run = cluster_loop_snoc[OF reach idx, of item]
  show ?thesis
    unfolding run step using k len by (auto simp: nth_list_update)
qed

theorem cluster_items_tie_break_witness:
  "\<exists>st'. cluster_loop demo_similarity (4 / 5) demo_uuid4 [0, 1, 2] 0
            ([demo_item ''a'' 2, demo_item ''b'' 5] @ [demo_item ''c'' 1]) init_state = Inr st' \<and>
         length (clusters st') = 2 \<and>
         members (clusters st' ! 0) = [demo_item ''a'' 2, demo_item ''c'' 1] \<and>
         clusters st' ! 1 = clusters demo_state ! 1"
proof -
  have "\<exists>st'. cluster_loop demo_similarity (4 / 5) demo_uuid4 [0, 1, 2] 0
            ([demo_item ''a'' 2, demo_item ''b'' 5] @ [demo_item ''c'' 1]) init_state = Inr st' \<and>
           length (clusters st') = length (clusters demo_state) \<and>
           members (clusters st' ! 0) = members (clusters demo_state ! 0) @ [demo_item ''c'' 1] \<and>
           (\<forall>j<length (clusters demo_state). j \<noteq> 0 \<longrightarrow> clusters st' ! j = clusters demo_state ! j)"
    by (rule cluster_items_tie_break[OF demo_run])
      (simp_all add: demo_state_def demo_similarity_def less_Suc_eq)
  then show ?thesis by (auto simp: demo_state_def)
qed

text \<open>
  Claim C2. When the next item joins the existing cluster \<open>k\<close> (the index that
  \<^verbatim>\<open>np.argmax\<close> returns, with a similarity that reaches the threshold), it is appended
  to the members; if its \<open>impact_score\<close> is strictly greater than the representative's,
  it becomes the representative and its embedding replaces the centroid of cluster
  \<open>k\<close>, and otherwise the representative and the centroid stay as they were.
\<close>

theorem cluster_items_promotion:
  assumes reach: "cluster_loop cs thr uuid embs 0 pre init_state = Inr st"
    and idx: "length pre < length embs"
    and k: "argmax (map (cs (embs ! length pre)) (cluster_embeddings st)) = Inr k"
    and thr: "thr \<le> cs (embs ! length pre) (cluster_embeddings st ! k)"
  shows "\<exists>st'. cluster_loop cs thr uuid embs 0 (pre @ [item]) init_state = Inr st' \<and>
           members (clusters st' ! k) = members (clusters st ! k) @ [item] \<and>
           (if impact_score (representative (clusters st ! k)) < impact_score item
            then representative (clusters st' ! k) = item \<and>
                 cluster_embeddings st' ! k = embs ! length pre
            else representative (clusters st' ! k) = representative (clusters st ! k) \<and>
                 cluster_embeddings st' ! k = cluster_embeddings st ! k)"
proof -
  have ok: "state_ok st" using cluster_loop_ok[OF state_ok_init reach] .
  then have len: "length (cluster_embeddings st) = length (clusters st)"
    by (simp add: state_ok_def)
  from argmax_spec[OF k] have kl: "k < length (cluster_embeddings st)" by simp
  note step = cluster_step_join[where cs=cs and e="embs ! length pre" and uuid=uuid and item=item, OF ok k thr]
  note run = cluster_loop_snoc[OF reach idx, of item]
  show ?thesis
    unfolding run step using kl len by simp
qed

theorem cluster_items_promotion_witness:
  "(\<exists>st'. cluster_loop demo_similarity (4 / 5) demo_uuid4 [0, 1, 2] 0
            ([demo_item ''a'' 2, demo_item ''b'' 5] @ [demo_item ''c'' 4]) init_state = Inr st' \<and>
          members (clusters st' ! 0) = [demo_item ''a'' 2, demo_item ''c'' 4] \<and>
          representative (clusters st' ! 0) = demo_item ''c'' 4 \<and>
          cluster_embeddings st' ! 0 = 2)"
proof -
  have a: "argmax (map (demo_similarity ([0, 1, 2] ! length [demo_item ''a'' 2, demo_item ''b'' 5]))
             (cluster_embeddings demo_state)) = Inr 0"
    by (simp add: demo_state_def demo_similarity_def argmax_def)
  have b: "length [demo_item ''a'' 2, demo_item ''b'' 5] < length [0::nat, 1, 2]" by simp
  have c: "4 / 5 \<le> demo_similarity ([0, 1, 2] ! length [demo_item ''a'' 2, demo_item ''b'' 5])
             (cluster_embeddings demo_state ! 0)"
    by (simp add: demo_state_def demo_similarity_def)
  from cluster_items_promotion[OF demo_run b a c, of "demo_item ''c'' 4"]
  show ?thesis by (simp add: demo_state_def demo_item_def)
qed

text \<open>
  Claim C3. After every number \<open>k\<close> of iterations of the pass (the pass over the first
  \<open>k\<close> items, by \<open>cluster_loop_split\<close>), and in the list that \<^verbatim>\<open>cluster_items\<close>
  returns, every cluster has its representative among its members and has at least one
  member.
\<close>

theorem cluster_items_invariant:
  "(\<forall>k st. cluster_loop cs thr uuid embs 0 (take k items) init_state = Inr st \<longrightarrow>
      (\<forall>c \<in> set (clusters st). representative c \<in> set (members c) \<and> 1 \<le> length (members c))) \<and>
   (\<forall>cl. cluster_items cs embed_texts uuid dflt items threshold = Inr cl \<longrightarrow>
      (\<forall>c \<in> set cl. representative c \<in> set (members c) \<and> 1 \<le> length (members c)))"
proof (intro conjI allI impI)
  fix k st
  assume "cluster_loop cs thr uuid embs 0 (take k items) init_state = Inr st"
  from cluster_loop_ok[OF state_ok_init this]
  show "\<forall>c \<in> set (clusters st). representative c \<in> set (members c) \<and> 1 \<le> length (members c)"
    by (simp add: state_ok_def list_all_iff cluster_inv_def)
next
  fix cl
  assume r: "cluster_items cs embed_texts uuid dflt items threshold = Inr cl"
  show "\<forall>c \<in> set cl. representative c \<in> set (members c) \<and> 1 \<le> length (members c)"
  proof (cases "items = []")
    case True
    with r show ?thesis by (simp add: cluster_items_def)
  next
    case False
    with r obtain t es st where
      "cluster_loop cs t uuid es 0 items init_state = Inr st" and cl: "cl = clusters st"
      by (auto simp: cluster_items_def Let_def split: sum.splits)
    from cluster_loop_ok[OF state_ok_init this(1)] cl show ?thesis
      by (simp add: state_ok_def list_all_iff cluster_inv_def)
  qed
qed

theorem cluster_items_invariant_witness:
  "\<exists>cl. cluster_items demo_similarity demo_embed_texts demo_uuid4 (4 / 5)
           [demo_item ''a'' 2, demo_item ''b'' 5, demo_item ''c'' 4] None = Inr cl \<and>
        length cl = 2 \<and>
        representative (cl ! 0) \<in> set (members (cl ! 0)) \<and> 1 \<le> length (members (cl ! 0)) \<and>
        representative (cl ! 1) \<in> set (members (cl ! 1)) \<and> 1 \<le> length (members (cl ! 1))"
proof -
  let ?items = "[demo_item ''a'' 2, demo_item ''b'' 5, demo_item ''c'' 4]"
  let ?texts = "[embedding_text (demo_item ''a'' 2), embedding_text (demo_item ''b'' 5),
                 embedding_text (demo_item ''c'' 4)]"
  have b: "batches 100 ?texts = [?texts]"
    by (simp add: batches.simps[of 100 "_ # _"] batches.simps[of 100 "[]"])
  have e: "demo_embed_texts ?texts = Inr [0, 1, 2]"
    by (simp add: demo_embed_texts_def embedding_text_def demo_item_def)
  have eb: "embed_batches demo_embed_texts (batches 100 ?texts) = Inr [0, 1, 2]"
    unfolding b using e by simp
  have l: "cluster_loop demo_similarity (4 / 5) demo_uuid4 [0, Suc 0, 2] 0 ?items init_state =
             Inr (demo_state\<lparr>clusters :=
                    [\<lparr>cluster_id = ''u'', representative = demo_item ''c'' 4,
                      members = [demo_item ''a'' 2, demo_item ''c'' 4]\<rparr>,
                     \<lparr>cluster_id = ''uu'', representative = demo_item ''b'' 5,
                      members = [demo_item ''b'' 5]\<rparr>],
                    cluster_embeddings := [2, 1]\<rparr>)"
    by (simp add: cluster_step_def new_cluster_def init_state_def argmax_def demo_state_def
        demo_similarity_def demo_uuid4_def Let_def demo_item_def)
  have run: "cluster_items demo_similarity demo_embed_texts demo_uuid4 (4 / 5) ?items None =
        Inr [\<lparr>cluster_id = ''u'', representative = demo_item ''c'' 4,
               members = [demo_item ''a'' 2, demo_item ''c'' 4]\<rparr>,
             \<lparr>cluster_id = ''uu'', representative = demo_item ''b'' 5,
               members = [demo_item ''b'' 5]\<rparr>]"
    by (simp add: cluster_items_def eb l demo_state_def del: cluster_loop.simps)
  from cluster_items_invariant[of demo_similarity "4 / 5" demo_uuid4 "[0, 1, 2]" ?items
      demo_embed_texts "4 / 5" None] run
  show ?thesis by simp
qed

subsection \<open>Result cache\<close>

lemma read_validate_unusable:
  "unusable validate fs path \<Longrightarrow> \<exists>e. try_bind (read_json fs path) validate = Inl e"
  by (auto simp: unusable_def read_json_def try_bind_def
      split: option.splits file_content.splits sum.splits)

lemma get_cache_key_encodable:
  "get_cache_key P iid operation (isoformat d) =
     (if encodable iid operation d
      then Inr (md5_hexdigest P (key_text iid operation (isoformat d)))
      else Inl (Raised UnicodeEncodeError ''surrogates not allowed''))"
  by (simp add: get_cache_key_def str_encode_def try_bind_def encodable_def)

lemma get_classified_path:
  "get_classified P self fs iid d =
     (if \<not> encodable iid ''classify'' d
      then Inl (Raised UnicodeEncodeError ''surrogates not allowed'')
      else if \<not> searchable fs (cache_path P self iid ''classify'' d)
      then Inl (Raised PermissionError ''Permission denied'')
      else Inr (if files fs (cache_path P self iid ''classify'' d) \<noteq> None then
                  (case try_bind (read_json fs (cache_path P self iid ''classify'' d))
                          (ClassifiedNewsItem_validate P) of
                     Inr item \<Rightarrow> Some item | Inl e \<Rightarrow> None)
                else None))"
  by (auto simp: get_classified_def get_cache_key_encodable path_exists_def cache_path_def
      try_bind_def Let_def split: sum.splits)

lemma get_scored_path:
  "get_scored P self fs iid d =
     (if \<not> encodable iid ''score'' d
      then Inl (Raised UnicodeEncodeError ''surrogates not allowed'')
      else if \<not> searchable fs (cache_path P self iid ''score'' d)
      then Inl (Raised PermissionError ''Permission denied'')
      else Inr (if files fs (cache_path P self iid ''score'' d) \<noteq> None then
                  (case try_bind (read_json fs (cache_path P self iid ''score'' d))
                          (ScoredNewsItem_validate P) of
                     Inr item \<Rightarrow> Some item | Inl e \<Rightarrow> None)
                else None))"
  by (auto simp: get_scored_def get_cache_key_encodable path_exists_def cache_path_def
      try_bind_def Let_def split: sum.splits)

lemma save_classified_path:
  "save_classified P self fs r d =
     (if \<not> encodable (item_id r) ''classify'' d
      then Inl (Raised UnicodeEncodeError ''surrogates not allowed'')
      else Inr (if searchable fs (cache_path P self (item_id r) ''classify'' d) \<and>
                   writable fs (cache_path P self (item_id r) ''classify'' d)
                then fs\<lparr>files := (files fs)(cache_path P self (item_id r) ''classify'' d \<mapsto>
                                    Document (JObj (ClassifiedNewsItem_dump r)))\<rparr>
                else fs))"
  by (simp add: save_classified_def get_cache_key_encodable write_json_def cache_path_def
      try_bind_def Let_def)

lemma save_scored_path:
  "save_scored P self fs r d =
     (if \<not> encodable (item_id r) ''score'' d
      then Inl (Raised UnicodeEncodeError ''surrogates not allowed'')
      else Inr (if searchable fs (cache_path P self (item_id r) ''score'' d) \<and>
                   writable fs (cache_path P self (item_id r) ''score'' d)
                then fs\<lparr>files := (files fs)(cache_path P self (item_id r) ''score'' d \<mapsto>
                                    Document (JObj (ScoredNewsItem_dump r)))\<rparr>
                else fs))"
  by (simp add: save_scored_def get_cache_key_encodable write_json_def cache_path_def
      try_bind_def Let_def)

text \<open>
  Claim C7. The code does not do what the claim says for every item id: the key and
  \<^verbatim>\<open>cache_file.exists()\<close> are computed before the \<^verbatim>\<open>try\<close> (\<^verbatim>\<open>cache.py\<close> lines 47-50 and
  87-90), so a get raises \<^verbatim>\<open>UnicodeEncodeError\<close> when the id has a lone surrogate, and
  \<^verbatim>\<open>PermissionError\<close> when the record is in a directory that may not be searched, which
  is a record that cannot be read. In every other case the get does what the claim
  says: when no file is stored under the key, or the stored record cannot be opened for
  reading, is not JSON or is rejected by the constructor of the model, it returns
  \<open>None\<close>. This holds for every item id, every date and both operations.
\<close>

theorem cache_get_absent_or_raises:
  "(\<not> encodable iid ''classify'' d \<longrightarrow>
      get_classified P self fs iid d = Inl (Raised UnicodeEncodeError ''surrogates not allowed'')) \<and>
   (encodable iid ''classify'' d \<and> \<not> searchable fs (cache_path P self iid ''classify'' d) \<longrightarrow>
      get_classified P self fs iid d = Inl (Raised PermissionError ''Permission denied'')) \<and>
   (encodable iid ''classify'' d \<and> searchable fs (cache_path P self iid ''classify'' d) \<and>
      (files fs (cache_path P self iid ''classify'' d) = None \<or>
       unusable (ClassifiedNewsItem_validate P) fs (cache_path P self iid ''classify'' d)) \<longrightarrow>
      get_classified P self fs iid d = Inr None) \<and>
   (\<not> encodable iid ''score'' d \<longrightarrow>
      get_scored P self fs iid d = Inl (Raised UnicodeEncodeError ''surrogates not allowed'')) \<and>
   (encodable iid ''score'' d \<and> \<not> searchable fs (cache_path P self iid ''score'' d) \<longrightarrow>
      get_scored P self fs iid d = Inl (Raised PermissionError ''Permission denied'')) \<and>
   (encodable iid ''score'' d \<and> searchable fs (cache_path P self iid ''score'' d) \<and>
      (files fs (cache_path P self iid ''score'' d) = None \<or>
       unusable (ScoredNewsItem_validate P) fs (cache_path P self iid ''score'' d)) \<longrightarrow>
      get_scored P self fs iid d = Inr None)"
proof (intro conjI impI)
  assume "encodable iid ''classify'' d \<and> searchable fs (cache_path P self iid ''classify'' d) \<and>
      (files fs (cache_path P self iid ''classify'' d) = None \<or>
       unusable (ClassifiedNewsItem_validate P) fs (cache_path P self iid ''classify'' d))"
  then show "get_classified P self fs iid d = Inr None"
    using read_validate_unusable[of "ClassifiedNewsItem_validate P" fs
        "cache_path P self iid ''classify'' d"]
    by (auto simp: get_classified_path)
next
  assume "encodable iid ''score'' d \<and> searchable fs (cache_path P self iid ''score'' d) \<and>
      (files fs (cache_path P self iid ''score'' d) = None \<or>
       unusable (ScoredNewsItem_validate P) fs (cache_path P self iid ''score'' d))"
  then show "get_scored P self fs iid d = Inr None"
    using read_validate_unusable[of "ScoredNewsItem_validate P" fs
        "cache_path P self iid ''score'' d"]
    by (auto simp: get_scored_path)
qed (simp_all add: get_classified_path get_scored_path)

lemma demo_encodable:
  "encodable ''n1'' ''classify'' demo_date" "encodable ''n1'' ''score'' demo_date"
  "encodable ''a'' ''score'' demo_date"
  "\<not> encodable surrogate_id ''classify'' demo_date" "\<not> encodable surrogate_id ''score'' demo_date"
  by (simp_all add: encodable_def key_text_def isoformat_def digit_def demo_date_def
      surrogate_id_def)

theorem cache_get_absent_or_raises_witness:
  "get_classified demo_platform demo_cache empty_fs surrogate_id demo_date =
     Inl (Raised UnicodeEncodeError ''surrogates not allowed'') \<and>
   get_scored demo_platform demo_cache empty_fs surrogate_id demo_date =
     Inl (Raised UnicodeEncodeError ''surrogates not allowed'') \<and>
   get_classified demo_platform demo_cache locked_fs ''n1'' demo_date =
     Inl (Raised PermissionError ''Permission denied'') \<and>
   get_scored demo_platform demo_cache locked_fs ''n1'' demo_date =
     Inl (Raised PermissionError ''Permission denied'') \<and>
   get_classified demo_platform demo_cache empty_fs ''n1'' demo_date = Inr None \<and>
   get_scored demo_platform demo_cache empty_fs ''n1'' demo_date = Inr None \<and>
   get_classified demo_platform demo_cache garbage_fs ''n1'' demo_date = Inr None \<and>
   get_scored demo_platform demo_cache garbage_fs ''n1'' demo_date = Inr None"
proof -
  have a: "files empty_fs p = None" "searchable empty_fs p" "searchable garbage_fs p"
    "\<not> searchable locked_fs p" for p
    by (simp_all add: empty_fs_def garbage_fs_def locked_fs_def)
  have b: "unusable v garbage_fs p" for p and v :: "json \<Rightarrow> error + 'a"
    by (simp add: unusable_def garbage_fs_def)
  from cache_get_absent_or_raises[where fs=empty_fs and P=demo_platform and self=demo_cache
      and iid=surrogate_id and d=demo_date]
    cache_get_absent_or_raises[where fs=locked_fs and P=demo_platform and self=demo_cache
      and iid="''n1''" and d=demo_date]
    cache_get_absent_or_raises[where fs=empty_fs and P=demo_platform and self=demo_cache
      and iid="''n1''" and d=demo_date]
    cache_get_absent_or_raises[where fs=garbage_fs and P=demo_platform and self=demo_cache
      and iid="''n1''" and d=demo_date]
  show ?thesis by (simp add: a b demo_encodable)
qed

lemma map_of_RawNewsItem_dump_append:
  "map_of (RawNewsItem_dump item @ rest) ''id'' = Some (JStr (item_id item))"
  "map_of (RawNewsItem_dump item @ rest) ''title'' = Some (JStr (title item))"
  "map_of (RawNewsItem_dump item @ rest) ''url'' = Some (optional_json (url item))"
  "map_of (RawNewsItem_dump item @ rest) ''source'' = Some (JStr (source item))"
  "map_of (RawNewsItem_dump item @ rest) ''published_at'' = Some (optional_json (published_at item))"
  "map_of (RawNewsItem_dump item @ rest) ''content'' = Some (JStr (content item))"
  by (simp_all add: RawNewsItem_dump_def)

lemma validate_optional_dump:
  assumes "case v of None \<Rightarrow> True | Some u \<Rightarrow> validator (JStr u) = Some u"
    and "map_of kvs key = Some (optional_json v)"
  shows "validate_optional validator kvs key = Inr v"
  using assms by (cases v) (simp_all add: validate_optional_def optional_json_def)

lemma RawNewsItem_validate_dump:
  assumes "canonical P item"
  shows "RawNewsItem_validate P (RawNewsItem_dump item @ rest) = Inr (RawNewsItem.truncate item)"
proof -
  have u: "validate_optional (validate_http_url P) (RawNewsItem_dump item @ rest) ''url'' = Inr (url item)"
    using assms by (intro validate_optional_dump) (simp_all add: canonical_def map_of_RawNewsItem_dump_append del: map_of_append)
  have p: "validate_optional (validate_datetime P) (RawNewsItem_dump item @ rest) ''published_at''
             = Inr (published_at item)"
    using assms by (intro validate_optional_dump) (simp_all add: canonical_def map_of_RawNewsItem_dump_append del: map_of_append)
  show ?thesis
    by (simp add: RawNewsItem_validate_def try_bind_def required_def u p
        map_of_RawNewsItem_dump_append RawNewsItem.truncate_def del: map_of_append)
qed


lemma ClassifiedNewsItem_validate_dump:
  assumes "canonical P item"
  shows "ClassifiedNewsItem_validate P (JObj (ClassifiedNewsItem_dump item @ rest))
           = Inr (ClassifiedNewsItem.truncate item)"
proof -
  have m: "map_of (ClassifiedNewsItem_dump item @ rest) ''category'' = Some (JStr (category item))"
    "map_of (ClassifiedNewsItem_dump item @ rest) ''classification_confidence''
       = Some (JFloat (classification_confidence item))"
    "map_of (ClassifiedNewsItem_dump item @ rest) ''classification_method''
       = Some (JStr (classification_method item))"
    by (simp_all add: ClassifiedNewsItem_dump_def RawNewsItem_dump_def)
  have r: "RawNewsItem_validate P (ClassifiedNewsItem_dump item @ rest) = Inr (RawNewsItem.truncate item)"
    using RawNewsItem_validate_dump[OF assms] by (simp add: ClassifiedNewsItem_dump_def)
  have "ClassifiedNewsItem_validate P (JObj (ClassifiedNewsItem_dump item @ rest)) =
          Inr (RawNewsItem.extend (RawNewsItem.truncate item)
                 (ClassifiedNewsItem.fields (category item) (classification_confidence item)
                    (classification_method item)))"
    by (simp add: ClassifiedNewsItem_validate_def try_bind_def required_def r m
        del: map_of_append)
  also have "RawNewsItem.extend (RawNewsItem.truncate item)
                 (ClassifiedNewsItem.fields (category item) (classification_confidence item)
                    (classification_method item)) = ClassifiedNewsItem.truncate item"
    by (cases item) (simp add: RawNewsItem.defs ClassifiedNewsItem.defs)
  finally show ?thesis .
qed

lemma ScoredNewsItem_validate_dump:
  assumes "canonical P item"
  shows "ScoredNewsItem_validate P (JObj (ScoredNewsItem_dump item)) = Inr item"
proof -
  have m: "map_of (ScoredNewsItem_dump item) ''impact_score'' = Some (JInt (impact_score item))"
    "map_of (ScoredNewsItem_dump item) ''impact_reason'' = Some (JStr (impact_reason item))"
    "map_of (ScoredNewsItem_dump item) ''impact_dimensions''
       = Some (JArr (map JStr (impact_dimensions item)))"
    by (simp_all add: ScoredNewsItem_dump_def ClassifiedNewsItem_dump_def RawNewsItem_dump_def)
  have s: "validate_strs (map JStr xs) = Inr xs" for xs
    by (induction xs) simp_all
  have c: "ClassifiedNewsItem_validate P (JObj (ScoredNewsItem_dump item))
             = Inr (ClassifiedNewsItem.truncate item)"
    unfolding ScoredNewsItem_dump_def by (rule ClassifiedNewsItem_validate_dump[OF assms])
  have "ScoredNewsItem_validate P (JObj (ScoredNewsItem_dump item)) =
          Inr (ClassifiedNewsItem.extend (ClassifiedNewsItem.truncate item)
                 (ScoredNewsItem.fields (impact_score item) (impact_reason item)
                    (impact_dimensions item)))"
    by (simp add: ScoredNewsItem_validate_def try_bind_def required_def c m s)
  also have "ClassifiedNewsItem.extend (ClassifiedNewsItem.truncate item)
                 (ScoredNewsItem.fields (impact_score item) (impact_reason item)
                    (impact_dimensions item)) = item"
    by (cases item) (simp add: RawNewsItem.defs ClassifiedNewsItem.defs ScoredNewsItem.defs)
  finally show ?thesis .
qed

lemma ClassifiedNewsItem_validate_dump_plain:
  assumes "canonical P (item :: ClassifiedNewsItem)"
  shows "ClassifiedNewsItem_validate P (JObj (ClassifiedNewsItem_dump item)) = Inr item"
  using ClassifiedNewsItem_validate_dump[OF assms, of "[]"]
  by (cases item) (simp add: ClassifiedNewsItem.defs RawNewsItem.defs)

lemma demo_nan_item_id: "item_id demo_nan = ''n1''"
  by (simp add: demo_nan_def demo_raw_def RawNewsItem.defs ClassifiedNewsItem.defs)

lemma demo_nan_confidence: "classification_confidence demo_nan = NaN"
  by (simp add: demo_nan_def demo_raw_def RawNewsItem.defs ClassifiedNewsItem.defs)

lemma canonical_demo_nan: "canonical demo_platform demo_nan"
  by (simp add: canonical_def demo_nan_def demo_raw_def demo_platform_def
      RawNewsItem.defs ClassifiedNewsItem.defs)

lemma demo_bad_url_item_id: "item_id demo_bad_url = ''n1''"
  by (simp add: demo_bad_url_def demo_classified_def demo_raw_def RawNewsItem.defs
      ClassifiedNewsItem.defs)

lemma demo_bad_url_rejected:
  "\<exists>e. ClassifiedNewsItem_validate demo_platform (JObj (ClassifiedNewsItem_dump demo_bad_url)) =
         Inl e"
  by (simp add: ClassifiedNewsItem_validate_def RawNewsItem_validate_def try_bind_def
      required_def validate_optional_def ClassifiedNewsItem_dump_def RawNewsItem_dump_def
      optional_json_def demo_bad_url_def demo_classified_def demo_raw_def demo_platform_def
      RawNewsItem.defs ClassifiedNewsItem.defs)

text \<open>
  Claim C8 as stated fails, with the write and the read succeeding. For an item whose
  confidence is NaN (the classifier stores one when the model answers \<^verbatim>\<open>"nan"\<close>,
  \<^verbatim>\<open>classify.py\<close> line 55) \<^verbatim>\<open>json.dump\<close> writes NaN and \<^verbatim>\<open>json.load\<close> reads it back, and
  the entity that the get returns is not equal to the one saved: NaN is equal to
  nothing. For an item whose \<open>url\<close> holds text that is no URL the constructor rejects
  the record and the get returns \<open>None\<close>.
\<close>

theorem cache_round_trip_counterexample:
  "(case save_classified demo_platform demo_cache empty_fs demo_nan demo_date of
      Inl e \<Rightarrow> False
    | Inr fs' \<Rightarrow>
        get_classified demo_platform demo_cache fs' (item_id demo_nan) demo_date =
          Inr (Some demo_nan)) \<and>
   \<not> ClassifiedNewsItem_eq demo_nan demo_nan \<and>
   (case save_classified demo_platform demo_cache empty_fs demo_bad_url demo_date of
      Inl e \<Rightarrow> False
    | Inr fs' \<Rightarrow>
        get_classified demo_platform demo_cache fs' (item_id demo_bad_url) demo_date = Inr None)"
proof (intro conjI)
  show "case save_classified demo_platform demo_cache empty_fs demo_nan demo_date of
      Inl e \<Rightarrow> False
    | Inr fs' \<Rightarrow>
        get_classified demo_platform demo_cache fs' (item_id demo_nan) demo_date =
          Inr (Some demo_nan)"
    by (simp add: save_classified_path get_classified_path demo_encodable read_json_def
        try_bind_def demo_nan_item_id empty_fs_def canonical_demo_nan
        ClassifiedNewsItem_validate_dump_plain)
  show "\<not> ClassifiedNewsItem_eq demo_nan demo_nan"
    by (simp add: ClassifiedNewsItem_eq_def float_eq_def demo_nan_confidence)
  obtain e where "ClassifiedNewsItem_validate demo_platform
      (JObj (ClassifiedNewsItem_dump demo_bad_url)) = Inl e"
    using demo_bad_url_rejected by blast
  then show "case save_classified demo_platform demo_cache empty_fs demo_bad_url demo_date of
      Inl e \<Rightarrow> False
    | Inr fs' \<Rightarrow>
        get_classified demo_platform demo_cache fs' (item_id demo_bad_url) demo_date = Inr None"
    by (simp add: save_classified_path get_classified_path demo_encodable read_json_def
        try_bind_def demo_bad_url_item_id empty_fs_def)
qed

text \<open>
  Claim C8, amended. For every item \<open>r\<close> of the pydantic class (see \<open>canonical\<close>) whose
  confidence is not NaN, every cache and every date: when the key of the id has an
  encoding and the write and the read succeed (the file of the key is in a directory
  that may be searched and can be written and read), saving \<open>r\<close> and then getting the
  key of its id, the operation and the date returns an entity equal to \<open>r\<close>. This
  holds for classified records and for scored records.
\<close>

theorem cache_round_trip:
  "(canonical P r \<and> classification_confidence r \<noteq> NaN \<and>
    encodable (item_id r) ''classify'' d \<and>
    searchable fs (cache_path P self (item_id r) ''classify'' d) \<and>
    writable fs (cache_path P self (item_id r) ''classify'' d) \<and>
    readable fs (cache_path P self (item_id r) ''classify'' d)
    \<longrightarrow> (\<exists>fs' r'. save_classified P self fs r d = Inr fs' \<and>
           get_classified P self fs' (item_id r) d = Inr (Some r') \<and>
           ClassifiedNewsItem_eq r' r)) \<and>
   (canonical P s \<and> classification_confidence s \<noteq> NaN \<and>
    encodable (item_id s) ''score'' d \<and>
    searchable fs (cache_path P self (item_id s) ''score'' d) \<and>
    writable fs (cache_path P self (item_id s) ''score'' d) \<and>
    readable fs (cache_path P self (item_id s) ''score'' d)
    \<longrightarrow> (\<exists>fs' s'. save_scored P self fs s d = Inr fs' \<and>
           get_scored P self fs' (item_id s) d = Inr (Some s') \<and>
           ScoredNewsItem_eq s' s))"
proof (intro conjI impI)
  let ?p = "cache_path P self (item_id r) ''classify'' d"
  let ?fs = "fs\<lparr>files := (files fs)(?p \<mapsto> Document (JObj (ClassifiedNewsItem_dump r)))\<rparr>"
  assume a: "canonical P r \<and> classification_confidence r \<noteq> NaN \<and>
    encodable (item_id r) ''classify'' d \<and> searchable fs ?p \<and> writable fs ?p \<and> readable fs ?p"
  then have s: "save_classified P self fs r d = Inr ?fs"
    by (simp add: save_classified_path)
  have g: "get_classified P self ?fs (item_id r) d = Inr (Some r)"
    using a ClassifiedNewsItem_validate_dump_plain[of P r]
    by (simp add: get_classified_path read_json_def try_bind_def)
  have e: "ClassifiedNewsItem_eq r r"
    using a by (simp add: ClassifiedNewsItem_eq_def float_eq_def)
  from s g e show "\<exists>fs' r'. save_classified P self fs r d = Inr fs' \<and>
           get_classified P self fs' (item_id r) d = Inr (Some r') \<and> ClassifiedNewsItem_eq r' r"
    by blast
next
  let ?p = "cache_path P self (item_id s) ''score'' d"
  let ?fs = "fs\<lparr>files := (files fs)(?p \<mapsto> Document (JObj (ScoredNewsItem_dump s)))\<rparr>"
  assume a: "canonical P s \<and> classification_confidence s \<noteq> NaN \<and>
    encodable (item_id s) ''score'' d \<and> searchable fs ?p \<and> writable fs ?p \<and> readable fs ?p"
  then have s: "save_scored P self fs s d = Inr ?fs"
    by (simp add: save_scored_path)
  have g: "get_scored P self ?fs (item_id s) d = Inr (Some s)"
    using a ScoredNewsItem_validate_dump[of P s]
    by (simp add: get_scored_path read_json_def try_bind_def)
  have e: "ScoredNewsItem_eq s s"
    using a by (simp add: ScoredNewsItem_eq_def ClassifiedNewsItem_eq_def float_eq_def)
  from s g e show "\<exists>fs' s'. save_scored P self fs s d = Inr fs' \<and>
           get_scored P self fs' (item_id s) d = Inr (Some s') \<and> ScoredNewsItem_eq s' s"
    by blast
qed

theorem cache_round_trip_witness:
  "(\<exists>fs' r'. save_classified demo_platform demo_cache empty_fs demo_classified demo_date = Inr fs' \<and>
      get_classified demo_platform demo_cache fs' ''n1'' demo_date = Inr (Some r') \<and>
      ClassifiedNewsItem_eq r' demo_classified) \<and>
   (\<exists>fs' s'. save_scored demo_platform demo_cache empty_fs (demo_item ''a'' 2) demo_date = Inr fs' \<and>
      get_scored demo_platform demo_cache fs' ''a'' demo_date = Inr (Some s') \<and>
      ScoredNewsItem_eq s' (demo_item ''a'' 2))"
proof -
  have c1: "canonical demo_platform demo_classified"
    by (simp add: canonical_def demo_classified_def demo_raw_def demo_platform_def
        RawNewsItem.defs ClassifiedNewsItem.defs)
  have c2: "canonical demo_platform (demo_item ''a'' 2)"
    by (simp add: canonical_def demo_item_def)
  have i1: "item_id demo_classified = ''n1''"
    "classification_confidence demo_classified \<noteq> NaN"
    by (simp_all add: demo_classified_def demo_raw_def RawNewsItem.defs ClassifiedNewsItem.defs)
  have i2: "item_id (demo_item ''a'' 2) = ''a''"
    "classification_confidence (demo_item ''a'' 2) \<noteq> NaN" by (simp_all add: demo_item_def)
  have w: "writable empty_fs p" "readable empty_fs p" "searchable empty_fs p" for p
    by (simp_all add: empty_fs_def)
  from cache_round_trip[where P=demo_platform and self=demo_cache and fs=empty_fs
      and r=demo_classified and s="demo_item ''a'' 2" and d=demo_date] c1 c2 w
  show ?thesis by (simp add: i1 i2 demo_encodable)
qed

subsection \<open>Classifier\<close>












subsection \<open>Impact scorer\<close>



















subsection \<open>Cluster summarizer\<close>







subsection \<open>Bounded concurrent stages\<close>









lemma gather_length:
  "length (gather_result pairs) = length pairs"
  by (simp add: gather_result_def)








lemma stage_length:
  assumes "stage cap tasks fs schedule = Some (Inr (out, fs'))"
  shows "length out = length tasks"
  using assms
  by (auto simp: stage_def gather_length split: if_splits option.splits sum.splits)
































































end
